theory Spec2Isabelle
  imports Complex_Main "HOL-Library.Multiset"
begin

section \<open>The city graph of the conflict model\<close>

text \<open>
  The notebook keeps one NetworkX graph \<open>G\<close>. Every node is a capital city with the
  attributes \<open>pos\<close>, \<open>country\<close>, \<open>blocked\<close> and \<open>resources\<close> (a dict from resource name
  to quantity; the notebook fills in \<open>{"food": 100}\<close>), every edge carries \<open>distance\<close>
  and \<open>capacity\<close>. Quantities of food are Python integers (100, 10, 20), hence \<open>int\<close>.
  The coordinates and the distance are floats that the simulation carries along and
  never computes with; they are kept as \<open>real\<close> values.

  Every node owns its \<open>resources\<close> dict: the notebook builds a fresh one per node.

  The node dict of the graph is an insertion-ordered dict: the list \<open>names\<close> holds its
  keys in iteration order and \<open>node\<close> is the lookup. The list \<open>edges\<close> is what
  \<open>G.edges()\<close> yields, in the order it yields it. Reading a missing key raises
  \<open>KeyError\<close> in Python; that is the only failure the simulation code can run into.
\<close>

datatype error = KeyError string

record settlement =
  pos :: "real \<times> real"
  country :: string
  blocked :: bool
  resources :: "string \<rightharpoonup> int"

record link =
  distance :: real
  capacity :: int

type_synonym node_dict = "string \<rightharpoonup> settlement"

type_synonym edge = "string \<times> string \<times> link"

record graph =
  names :: "string list"
  node :: node_dict
  edges :: "edge list"

subsection \<open>produce\_food\<close>

text \<open>\<open>s["resources"]["food"] += amount\<close>: reads the key \<open>"food"\<close>, then stores the sum.\<close>

definition add_food :: "int \<Rightarrow> settlement \<Rightarrow> error + settlement" where
  "add_food amount s =
     (case resources s ''food'' of
        None \<Rightarrow> Inl (KeyError ''food'')
      | Some f \<Rightarrow> Inr (s\<lparr>resources := (resources s)(''food'' \<mapsto> f + amount)\<rparr>))"

text \<open>The loop \<open>for city in G.nodes\<close> of \<open>produce_food\<close>, over the keys still to visit.\<close>

fun produce_loop :: "string list \<Rightarrow> int \<Rightarrow> node_dict \<Rightarrow> error + node_dict" where
  "produce_loop [] production_amount nd = Inr nd"
| "produce_loop (city # rest) production_amount nd =
     (case nd city of
        None \<Rightarrow> Inl (KeyError city)
      | Some s \<Rightarrow>
          if \<not> blocked s then
            (case add_food production_amount s of
               Inl e \<Rightarrow> Inl e
             | Inr s' \<Rightarrow> produce_loop rest production_amount (nd(city \<mapsto> s')))
          else produce_loop rest production_amount nd)"

definition produce_food :: "graph \<Rightarrow> int \<Rightarrow> error + graph" where
  "produce_food G production_amount =
     (case produce_loop (names G) production_amount (node G) of
        Inl e \<Rightarrow> Inl e
      | Inr nd \<Rightarrow> Inr (G\<lparr>node := nd\<rparr>))"

subsection \<open>trade\_food\<close>

text \<open>Python's \<open>min(a, b, c)\<close> on integers.\<close>

definition min3 :: "int \<Rightarrow> int \<Rightarrow> int \<Rightarrow> int" where
  "min3 a b c = min a (min b c)"

text \<open>\<open>food_flows[city] += x\<close> (and \<open>-= x\<close> as adding \<open>- x\<close>) on the net-flow dict.\<close>

definition flow_add :: "(string \<rightharpoonup> int) \<Rightarrow> string \<Rightarrow> int \<Rightarrow> error + (string \<rightharpoonup> int)" where
  "flow_add food_flows city x =
     (case food_flows city of
        None \<Rightarrow> Inl (KeyError city)
      | Some v \<Rightarrow> Inr (food_flows(city \<mapsto> v + x)))"

text \<open>
  The body of the loop \<open>for cityA, cityB in G.edges()\<close>. The \<open>or\<close> of the blocked test
  short-circuits: \<open>cityB\<close> is only looked up when \<open>cityA\<close> is not blocked.
\<close>

definition trade_edge ::
  "node_dict \<Rightarrow> int \<Rightarrow> int \<Rightarrow> edge \<Rightarrow> (string \<rightharpoonup> int) \<Rightarrow> error + (string \<rightharpoonup> int)" where
  "trade_edge nd trade_threshold max_trade_per_edge e food_flows =
     (case e of (cityA, cityB, l) \<Rightarrow>
      (case nd cityA of
         None \<Rightarrow> Inl (KeyError cityA)
       | Some sA \<Rightarrow>
           if blocked sA then Inr food_flows
           else
             (case nd cityB of
                None \<Rightarrow> Inl (KeyError cityB)
              | Some sB \<Rightarrow>
                  if blocked sB then Inr food_flows
                  else
                    (case resources sA ''food'' of
                       None \<Rightarrow> Inl (KeyError ''food'')
                     | Some foodA \<Rightarrow>
                         (case resources sB ''food'' of
                            None \<Rightarrow> Inl (KeyError ''food'')
                          | Some foodB \<Rightarrow>
                              if foodA > trade_threshold \<and> foodB < trade_threshold then
                                (let surplusA = foodA - trade_threshold;
                                     deficitB = trade_threshold - foodB;
                                     flowAB = min3 surplusA deficitB max_trade_per_edge
                                 in case flow_add food_flows cityA (- flowAB) of
                                      Inl err \<Rightarrow> Inl err
                                    | Inr ff \<Rightarrow> flow_add ff cityB flowAB)
                              else if foodB > trade_threshold \<and> foodA < trade_threshold then
                                (let surplusB = foodB - trade_threshold;
                                     deficitA = trade_threshold - foodA;
                                     flowBA = min3 surplusB deficitA max_trade_per_edge
                                 in case flow_add food_flows cityB (- flowBA) of
                                      Inl err \<Rightarrow> Inl err
                                    | Inr ff \<Rightarrow> flow_add ff cityA flowBA)
                              else Inr food_flows)))))"

fun trade_loop ::
  "node_dict \<Rightarrow> int \<Rightarrow> int \<Rightarrow> edge list \<Rightarrow> (string \<rightharpoonup> int) \<Rightarrow> error + (string \<rightharpoonup> int)" where
  "trade_loop nd trade_threshold max_trade_per_edge [] food_flows = Inr food_flows"
| "trade_loop nd trade_threshold max_trade_per_edge (e # es) food_flows =
     (case trade_edge nd trade_threshold max_trade_per_edge e food_flows of
        Inl err \<Rightarrow> Inl err
      | Inr ff \<Rightarrow> trade_loop nd trade_threshold max_trade_per_edge es ff)"

text \<open>
  The loop \<open>for city in food_flows\<close> that applies the net flows; the keys of
  \<open>food_flows\<close> are the node names, in the same order. The statement
  \<open>G.nodes[city]["resources"]["food"] += food_flows[city]\<close> reads the food first,
  then the flow, then stores the sum.
\<close>

fun apply_loop :: "string list \<Rightarrow> (string \<rightharpoonup> int) \<Rightarrow> node_dict \<Rightarrow> error + node_dict" where
  "apply_loop [] food_flows nd = Inr nd"
| "apply_loop (city # rest) food_flows nd =
     (case nd city of
        None \<Rightarrow> Inl (KeyError city)
      | Some s \<Rightarrow>
          (case resources s ''food'' of
             None \<Rightarrow> Inl (KeyError ''food'')
           | Some f \<Rightarrow>
               (case food_flows city of
                  None \<Rightarrow> Inl (KeyError city)
                | Some v \<Rightarrow>
                    apply_loop rest food_flows
                      (nd(city \<mapsto> s\<lparr>resources := (resources s)(''food'' \<mapsto> f + v)\<rparr>)))))"

text \<open>\<open>{city: 0 for city in G.nodes}\<close>\<close>

definition zero_flows :: "string list \<Rightarrow> (string \<rightharpoonup> int)" where
  "zero_flows cities = map_of (map (\<lambda>city. (city, 0)) cities)"

definition trade_food :: "graph \<Rightarrow> int \<Rightarrow> int \<Rightarrow> error + graph" where
  "trade_food G trade_threshold max_trade_per_edge =
     (case trade_loop (node G) trade_threshold max_trade_per_edge (edges G)
             (zero_flows (names G)) of
        Inl e \<Rightarrow> Inl e
      | Inr food_flows \<Rightarrow>
          (case apply_loop (names G) food_flows (node G) of
             Inl e \<Rightarrow> Inl e
           | Inr nd \<Rightarrow> Inr (G\<lparr>node := nd\<rparr>)))"

subsection \<open>simulate\_economy\<close>

text \<open>
  One turn of the loop in \<open>simulate_economy\<close>: production, then trade. The notebook
  calls it with \<open>production_amount = 10\<close>, \<open>trade_threshold = 100\<close> and
  \<open>max_trade_per_edge = 20\<close>; the parameters are kept explicit here. The summary
  printed after a turn reads the graph and changes nothing, so it is left out.
\<close>

definition economy_step :: "graph \<Rightarrow> int \<Rightarrow> int \<Rightarrow> int \<Rightarrow> error + graph" where
  "economy_step G production_amount trade_threshold max_trade_per_edge =
     (case produce_food G production_amount of
        Inl e \<Rightarrow> Inl e
      | Inr G1 \<Rightarrow> trade_food G1 trade_threshold max_trade_per_edge)"

fun run_steps :: "nat \<Rightarrow> graph \<Rightarrow> error + graph" where
  "run_steps 0 G = Inr G"
| "run_steps (Suc n) G =
     (case economy_step G 10 100 20 of
        Inl e \<Rightarrow> Inl e
      | Inr G' \<Rightarrow> run_steps n G')"

text \<open>\<open>for step in range(1, steps+1)\<close>: no turn at all when \<open>steps \<le> 0\<close>.\<close>

definition simulate_economy :: "graph \<Rightarrow> int \<Rightarrow> error + graph" where
  "simulate_economy G steps = run_steps (nat steps) G"

section \<open>Vocabulary of the properties\<close>

text \<open>
  \<open>food G c\<close> is \<open>G.nodes[c]["resources"]["food"]\<close>, when both keys are there.
  A graph is well formed when its node names are distinct (they are dict keys), every
  named node carries a food stock, and every link joins two named nodes (NetworkX
  never holds an edge whose endpoints are not nodes).
\<close>

definition food :: "graph \<Rightarrow> string \<Rightarrow> int option" where
  "food G c = (case node G c of None \<Rightarrow> None | Some s \<Rightarrow> resources s ''food'')"

definition has_food :: "node_dict \<Rightarrow> string \<Rightarrow> bool" where
  "has_food nd c = (case nd c of None \<Rightarrow> False | Some s \<Rightarrow> resources s ''food'' \<noteq> None)"

definition wf_graph :: "graph \<Rightarrow> bool" where
  "wf_graph G \<longleftrightarrow>
     distinct (names G) \<and>
     list_all (has_food (node G)) (names G) \<and>
     list_all (\<lambda>(a, b, l). a \<in> set (names G) \<and> b \<in> set (names G)) (edges G)"

definition is_blocked :: "graph \<Rightarrow> string \<Rightarrow> bool" where
  "is_blocked G c = (case node G c of None \<Rightarrow> False | Some s \<Rightarrow> blocked s)"

definition all_food_nonneg :: "graph \<Rightarrow> bool" where
  "all_food_nonneg G =
     list_all (\<lambda>c. case food G c of None \<Rightarrow> False | Some f \<Rightarrow> 0 \<le> f) (names G)"

definition total_food :: "graph \<Rightarrow> int" where
  "total_food G = sum_list (map (\<lambda>c. case food G c of None \<Rightarrow> 0 | Some f \<Rightarrow> f) (names G))"

text \<open>The number of trade links at a settlement.\<close>

definition touches :: "edge \<Rightarrow> string \<Rightarrow> bool" where
  "touches e c = (case e of (a, b, l) \<Rightarrow> a = c \<or> b = c)"

definition degree :: "graph \<Rightarrow> string \<Rightarrow> nat" where
  "degree G c = length (filter (\<lambda>e. touches e c) (edges G))"

text \<open>The food stock read off the outcome of a call; \<open>None\<close> when the call raised.\<close>

definition food_after :: "error + graph \<Rightarrow> string \<Rightarrow> int option" where
  "food_after r c = (case r of Inl e \<Rightarrow> None | Inr G \<Rightarrow> food G c)"

subsection \<open>Closed forms of the loops\<close>

text \<open>
  \<open>bump x s\<close> is the settlement \<open>s\<close> with \<open>x\<close> added to its food.
  \<open>link_flow nd T cap a b\<close> is the quantity the trade rule moves from \<open>a\<close> to \<open>b\<close> over
  one link, read from the stocks in \<open>nd\<close> (negative when the food moves from \<open>b\<close>
  to \<open>a\<close>); \<open>edge_delta\<close> is what one link adds to the net flow of a city and
  \<open>net_flow\<close> the sum over all links. The lemmas below show that the loops compute
  exactly these.
\<close>

definition bump :: "int \<Rightarrow> settlement \<Rightarrow> settlement" where
  "bump x s = (case add_food x s of Inl e \<Rightarrow> s | Inr s' \<Rightarrow> s')"

definition link_flow :: "node_dict \<Rightarrow> int \<Rightarrow> int \<Rightarrow> string \<Rightarrow> string \<Rightarrow> int" where
  "link_flow nd T cap a b =
     (case (nd a, nd b) of
        (Some sA, Some sB) \<Rightarrow>
          if blocked sA \<or> blocked sB then 0
          else (case (resources sA ''food'', resources sB ''food'') of
                  (Some fA, Some fB) \<Rightarrow>
                    if fA > T \<and> fB < T then min3 (fA - T) (T - fB) cap
                    else if fB > T \<and> fA < T then - min3 (fB - T) (T - fA) cap
                    else 0
                | _ \<Rightarrow> 0)
      | _ \<Rightarrow> 0)"

definition edge_delta :: "node_dict \<Rightarrow> int \<Rightarrow> int \<Rightarrow> edge \<Rightarrow> string \<Rightarrow> int" where
  "edge_delta nd T cap e c =
     (case e of (a, b, l) \<Rightarrow>
        (if c = b then link_flow nd T cap a b else 0)
        - (if c = a then link_flow nd T cap a b else 0))"

definition net_flow :: "node_dict \<Rightarrow> int \<Rightarrow> int \<Rightarrow> edge list \<Rightarrow> string \<Rightarrow> int" where
  "net_flow nd T cap es c = sum_list (map (\<lambda>e. edge_delta nd T cap e c) es)"

definition produced :: "int \<Rightarrow> graph \<Rightarrow> node_dict" where
  "produced amt G =
     (\<lambda>c. if c \<in> set (names G)
          then map_option (\<lambda>s. if blocked s then s else bump amt s) (node G c)
          else node G c)"

definition traded :: "int \<Rightarrow> int \<Rightarrow> graph \<Rightarrow> node_dict" where
  "traded T cap G =
     (\<lambda>c. if c \<in> set (names G)
          then map_option (bump (net_flow (node G) T cap (edges G) c)) (node G c)
          else node G c)"

subsection \<open>Example graphs\<close>

definition city :: "bool \<Rightarrow> int \<Rightarrow> settlement" where
  "city b f = \<lparr>pos = (0, 0), country = [], blocked = b, resources = [''food'' \<mapsto> f]\<rparr>"

definition road :: link where
  "road = \<lparr>distance = 0, capacity = 10\<rparr>"

text \<open>Two linked settlements, A at 130 and B at 80.\<close>

definition two_cities :: graph where
  "two_cities =
     \<lparr>names = [''A'', ''B''],
      node = [''A'' \<mapsto> city False 130, ''B'' \<mapsto> city False 80],
      edges = [(''A'', ''B'', road)]\<rparr>"

text \<open>A hub at 110 with seven links, to seven settlements that hold no food.\<close>

definition star :: graph where
  "star =
     \<lparr>names = [''H'', ''a'', ''b'', ''c'', ''d'', ''e'', ''f'', ''g''],
      node = [''H'' \<mapsto> city False 110, ''a'' \<mapsto> city False 0, ''b'' \<mapsto> city False 0,
              ''c'' \<mapsto> city False 0, ''d'' \<mapsto> city False 0, ''e'' \<mapsto> city False 0,
              ''f'' \<mapsto> city False 0, ''g'' \<mapsto> city False 0],
      edges = [(''H'', ''a'', road), (''H'', ''b'', road), (''H'', ''c'', road),
               (''H'', ''d'', road), (''H'', ''e'', road), (''H'', ''f'', road),
               (''H'', ''g'', road)]\<rparr>"

text \<open>
  A at 115 linked with B at 90, C at 90 and D at 110; every stock lies within
  \<open>max_trade_per_edge = 20\<close> of \<open>trade_threshold = 100\<close>.
\<close>

definition quad :: graph where
  "quad =
     \<lparr>names = [''A'', ''B'', ''C'', ''D''],
      node = [''A'' \<mapsto> city False 115, ''B'' \<mapsto> city False 90,
              ''C'' \<mapsto> city False 90, ''D'' \<mapsto> city False 110],
      edges = [(''A'', ''B'', road), (''A'', ''C'', road), (''A'', ''D'', road)]\<rparr>"

text \<open>A at 130 and a blocked B at 80, linked.\<close>

definition siege :: graph where
  "siege =
     \<lparr>names = [''A'', ''B''],
      node = [''A'' \<mapsto> city False 130, ''B'' \<mapsto> city True 80],
      edges = [(''A'', ''B'', road)]\<rparr>"

text \<open>Both ends of the only link blocked, and an unblocked city C with no link.\<close>

definition lockdown :: graph where
  "lockdown =
     \<lparr>names = [''A'', ''B'', ''C''],
      node = [''A'' \<mapsto> city True 130, ''B'' \<mapsto> city True 80, ''C'' \<mapsto> city False 120],
      edges = [(''A'', ''B'', road)]\<rparr>"

text \<open>A at 130 linked with B, which sits exactly at the threshold 100.\<close>

definition even_pair :: graph where
  "even_pair =
     \<lparr>names = [''A'', ''B''],
      node = [''A'' \<mapsto> city False 130, ''B'' \<mapsto> city False 100],
      edges = [(''A'', ''B'', road)]\<rparr>"

subsection \<open>Further vocabulary\<close>

text \<open>Two settlements agree on everything but the food entry of \<open>resources\<close>.\<close>

definition same_but_food :: "settlement \<Rightarrow> settlement \<Rightarrow> bool" where
  "same_but_food s s' \<longleftrightarrow>
     pos s' = pos s \<and> country s' = country s \<and> blocked s' = blocked s \<and>
     (\<forall>r. r \<noteq> ''food'' \<longrightarrow> resources s' r = resources s r)"

text \<open>
  Two graphs have the same node names and the same links with the same attributes,
  and node by node agree on everything but the food.
\<close>

definition only_food_changed :: "graph \<Rightarrow> graph \<Rightarrow> bool" where
  "only_food_changed G G' \<longleftrightarrow>
     names G' = names G \<and> edges G' = edges G \<and>
     (\<forall>c. rel_option same_but_food (node G c) (node G' c))"

text \<open>The links of \<open>quad\<close>, visited in another order.\<close>

definition quad_reordered :: "edge list" where
  "quad_reordered = [(''A'', ''D'', road), (''A'', ''C'', road), (''A'', ''B'', road)]"

text \<open>
  The food of two settlements together, read off the outcome of a call.
  \<open>joins e a b\<close>: the link \<open>e\<close> runs between \<open>a\<close> and \<open>b\<close>. \<open>edge_flow\<close> is the flow of
  one call of \<open>trade_food\<close> over a link. \<open>only_flow_between G T cap a b\<close>: every link
  that touches \<open>a\<close> or \<open>b\<close> and does not run between them carries no flow.
\<close>

definition pair_food :: "error + graph \<Rightarrow> string \<Rightarrow> string \<Rightarrow> int option" where
  "pair_food r a b =
     (case (food_after r a, food_after r b) of
        (Some x, Some y) \<Rightarrow> Some (x + y)
      | _ \<Rightarrow> None)"

definition joins :: "edge \<Rightarrow> string \<Rightarrow> string \<Rightarrow> bool" where
  "joins e a b = (case e of (x, y, l) \<Rightarrow> (x = a \<and> y = b) \<or> (x = b \<and> y = a))"

definition edge_flow :: "graph \<Rightarrow> int \<Rightarrow> int \<Rightarrow> edge \<Rightarrow> int" where
  "edge_flow G T cap e = (case e of (x, y, l) \<Rightarrow> link_flow (node G) T cap x y)"

definition only_flow_between :: "graph \<Rightarrow> int \<Rightarrow> int \<Rightarrow> string \<Rightarrow> string \<Rightarrow> bool" where
  "only_flow_between G T cap a b =
     list_all (\<lambda>e. joins e a b \<or> edge_flow G T cap e = 0
                  \<or> (\<not> touches e a \<and> \<not> touches e b)) (edges G)"

section \<open>What the loops compute\<close>

lemma link_flow_self: "link_flow nd T cap a a = 0"
  by (auto simp: link_flow_def split: option.splits)

lemma trade_edge_char:
  assumes "has_food nd a" "has_food nd b" "a \<in> N" "b \<in> N"
  shows "trade_edge nd T cap (a, b, l) (\<lambda>c. if c \<in> N then Some (F c) else None)
       = Inr (\<lambda>c. if c \<in> N then Some (F c + edge_delta nd T cap (a, b, l) c) else None)"
proof (cases "a = b")
  case True
  with assms show ?thesis
    by (auto simp: trade_edge_def has_food_def edge_delta_def link_flow_def
        split: option.splits)
next
  case False
  with assms show ?thesis
    by (auto simp: trade_edge_def has_food_def edge_delta_def link_flow_def flow_add_def
        Let_def fun_eq_iff split: option.splits)
qed

lemma trade_loop_char:
  assumes "list_all (\<lambda>(a, b, l). has_food nd a \<and> has_food nd b \<and> a \<in> N \<and> b \<in> N) es"
  shows "trade_loop nd T cap es (\<lambda>c. if c \<in> N then Some (F c) else None)
       = Inr (\<lambda>c. if c \<in> N then Some (F c + net_flow nd T cap es c) else None)"
  using assms
proof (induction es arbitrary: F)
  case Nil
  then show ?case by (auto simp: net_flow_def fun_eq_iff)
next
  case (Cons e es)
  obtain a b l where e: "e = (a, b, l)" by (cases e)
  from Cons.prems e have h: "has_food nd a" "has_food nd b" "a \<in> N" "b \<in> N"
    and rest: "list_all (\<lambda>(a, b, l). has_food nd a \<and> has_food nd b \<and> a \<in> N \<and> b \<in> N) es"
    by auto
  have "trade_loop nd T cap (e # es) (\<lambda>c. if c \<in> N then Some (F c) else None)
      = trade_loop nd T cap es
          (\<lambda>c. if c \<in> N then Some (F c + edge_delta nd T cap e c) else None)"
    unfolding e by (simp add: trade_edge_char[OF h])
  also have "\<dots> = Inr (\<lambda>c. if c \<in> N
      then Some (F c + edge_delta nd T cap e c + net_flow nd T cap es c) else None)"
    by (rule Cons.IH[OF rest])
  also have "\<dots> = Inr (\<lambda>c. if c \<in> N then Some (F c + net_flow nd T cap (e # es) c) else None)"
    by (auto simp: fun_eq_iff net_flow_def)
  finally show ?case .
qed

lemma zero_flows_eq: "zero_flows ns = (\<lambda>c. if c \<in> set ns then Some 0 else None)"
  by (induction ns) (auto simp: zero_flows_def fun_eq_iff)

lemma add_food_bump: "resources s ''food'' \<noteq> None \<Longrightarrow> add_food x s = Inr (bump x s)"
  by (auto simp: add_food_def bump_def)

lemma apply_loop_char:
  assumes "distinct ns" "\<forall>c \<in> set ns. has_food nd c" "\<forall>c \<in> set ns. flows c = Some (F c)"
  shows "apply_loop ns flows nd
       = Inr (\<lambda>c. if c \<in> set ns then map_option (bump (F c)) (nd c) else nd c)"
  using assms
proof (induction ns arbitrary: nd)
  case Nil
  then show ?case by simp
next
  case (Cons n ns)
  from Cons.prems obtain s f where s: "nd n = Some s" "resources s ''food'' = Some f"
    by (auto simp: has_food_def split: option.splits)
  have fl: "flows n = Some (F n)" using Cons.prems by simp
  let ?nd = "nd(n \<mapsto> bump (F n) s)"
  have d: "distinct ns" "n \<notin> set ns" using Cons.prems by auto
  have hf: "\<forall>c \<in> set ns. has_food ?nd c" using Cons.prems d by (auto simp: has_food_def)
  have fl': "\<forall>c \<in> set ns. flows c = Some (F c)" using Cons.prems by simp
  have b: "bump (F n) s = s\<lparr>resources := (resources s)(''food'' \<mapsto> f + F n)\<rparr>"
    using s(2) by (simp add: bump_def add_food_def)
  show ?case
    using d s by (auto simp: fl b[symmetric] Cons.IH[OF d(1) hf fl'] fun_eq_iff)
qed

lemma produce_loop_char:
  assumes "distinct ns" "\<forall>c \<in> set ns. has_food nd c"
  shows "produce_loop ns amt nd
       = Inr (\<lambda>c. if c \<in> set ns
                  then map_option (\<lambda>s. if blocked s then s else bump amt s) (nd c)
                  else nd c)"
  using assms
proof (induction ns arbitrary: nd)
  case Nil
  then show ?case by simp
next
  case (Cons n ns)
  from Cons.prems obtain s where s: "nd n = Some s" "resources s ''food'' \<noteq> None"
    by (auto simp: has_food_def split: option.splits)
  let ?nd = "nd(n \<mapsto> bump amt s)"
  have d: "distinct ns" "n \<notin> set ns" using Cons.prems by auto
  have hf: "\<forall>c \<in> set ns. has_food ?nd c" using Cons.prems d by (auto simp: has_food_def)
  have hf0: "\<forall>c \<in> set ns. has_food nd c" using Cons.prems by simp
  show ?case
    using d s
    by (auto simp: add_food_bump Cons.IH[OF d(1) hf] Cons.IH[OF d(1) hf0] fun_eq_iff)
qed

lemma produce_food_char:
  assumes "wf_graph G"
  shows "produce_food G amt = Inr (G\<lparr>node := produced amt G\<rparr>)"
proof -
  from assms have "distinct (names G)" "\<forall>c \<in> set (names G). has_food (node G) c"
    by (auto simp: wf_graph_def list_all_iff)
  then show ?thesis
    by (simp add: produce_food_def produce_loop_char produced_def)
qed

lemma trade_food_char:
  assumes "wf_graph G"
  shows "trade_food G T cap = Inr (G\<lparr>node := traded T cap G\<rparr>)"
proof -
  let ?ff = "\<lambda>c. if c \<in> set (names G)
                 then Some (0 + net_flow (node G) T cap (edges G) c) else None"
  from assms have d: "distinct (names G)"
    and hf: "\<forall>c \<in> set (names G). has_food (node G) c"
    and es: "list_all (\<lambda>(a, b, l). has_food (node G) a \<and> has_food (node G) b
                \<and> a \<in> set (names G) \<and> b \<in> set (names G)) (edges G)"
    by (auto simp: wf_graph_def list_all_iff)
  have "trade_loop (node G) T cap (edges G) (zero_flows (names G)) = Inr ?ff"
    unfolding zero_flows_eq by (rule trade_loop_char[OF es])
  moreover have "apply_loop (names G) ?ff (node G) = Inr (traded T cap G)"
    unfolding traded_def by (rule apply_loop_char[OF d hf]) simp
  ultimately show ?thesis
    by (simp add: trade_food_def)
qed

lemma resources_bump:
  "resources s ''food'' = Some f \<Longrightarrow> resources (bump x s) = (resources s)(''food'' \<mapsto> f + x)"
  by (simp add: bump_def add_food_def)

lemma blocked_bump: "blocked (bump x s) = blocked s"
  by (simp add: bump_def add_food_def split: option.splits)

lemma bump_zero: "resources s ''food'' \<noteq> None \<Longrightarrow> bump 0 s = s"
  by (auto simp: bump_def add_food_def map_upd_triv)

lemma wf_produced: "wf_graph G \<Longrightarrow> wf_graph (G\<lparr>node := produced amt G\<rparr>)"
  by (auto simp: wf_graph_def list_all_iff produced_def has_food_def bump_def add_food_def
      split: option.splits)

lemma wf_traded: "wf_graph G \<Longrightarrow> wf_graph (G\<lparr>node := traded T cap G\<rparr>)"
  by (auto simp: wf_graph_def list_all_iff traded_def has_food_def bump_def add_food_def
      split: option.splits)

lemma food_produced:
  assumes "c \<in> set (names G)" "node G c = Some s" "resources s ''food'' = Some f"
  shows "food (G\<lparr>node := produced amt G\<rparr>) c = Some (if blocked s then f else f + amt)"
  using assms by (simp add: food_def produced_def resources_bump)

lemma food_traded:
  assumes "c \<in> set (names G)" "node G c = Some s" "resources s ''food'' = Some f"
  shows "food (G\<lparr>node := traded T cap G\<rparr>) c = Some (f + net_flow (node G) T cap (edges G) c)"
  using assms by (simp add: food_def traded_def resources_bump)

lemma link_flow_blocked:
  "nd a = Some s \<Longrightarrow> blocked s \<Longrightarrow> link_flow nd T cap a b = 0"
  "nd b = Some s \<Longrightarrow> blocked s \<Longrightarrow> link_flow nd T cap a b = 0"
  by (auto simp: link_flow_def split: option.splits)

lemma net_flow_zero:
  assumes "\<forall>e \<in> set es. edge_delta nd T cap e c = 0"
  shows "net_flow nd T cap es c = 0"
  using assms by (induction es) (auto simp: net_flow_def)

lemma traded_no_flow:
  assumes "wf_graph G" "\<forall>c \<in> set (names G). net_flow (node G) T cap (edges G) c = 0"
  shows "traded T cap G = node G"
proof
  fix c
  show "traded T cap G c = node G c"
  proof (cases "c \<in> set (names G)")
    case True
    with assms(1) obtain s where "node G c = Some s" "resources s ''food'' \<noteq> None"
      by (auto simp: wf_graph_def list_all_iff has_food_def split: option.splits)
    with True assms(2) show ?thesis by (simp add: traded_def bump_zero)
  next
    case False
    then show ?thesis by (simp add: traded_def)
  qed
qed

lemma wf_siege: "wf_graph siege"
  by (simp add: wf_graph_def siege_def has_food_def city_def)

lemma wf_lockdown: "wf_graph lockdown"
  by (simp add: wf_graph_def lockdown_def has_food_def city_def)

lemma wf_two_cities: "wf_graph two_cities"
  by (simp add: wf_graph_def two_cities_def has_food_def city_def)

lemma wf_quad: "wf_graph quad"
  by (simp add: wf_graph_def quad_def has_food_def city_def)

lemma wf_graph_node:
  assumes "wf_graph G" "c \<in> set (names G)"
  shows "\<exists>s f. node G c = Some s \<and> resources s ''food'' = Some f"
proof -
  from assms have "has_food (node G) c" by (simp add: wf_graph_def list_all_iff)
  then show ?thesis by (auto simp: has_food_def split: option.splits)
qed

lemma economy_step_char:
  assumes "wf_graph G"
  shows "economy_step G amt T cap
       = Inr (G\<lparr>node := traded T cap (G\<lparr>node := produced amt G\<rparr>)\<rparr>)"
  using assms by (simp add: economy_step_def produce_food_char trade_food_char wf_produced)

lemma wf_economy_step:
  assumes "wf_graph G"
  shows "wf_graph (G\<lparr>node := traded T cap (G\<lparr>node := produced amt G\<rparr>)\<rparr>)"
  using wf_traded[OF wf_produced[OF assms], of T cap amt] by simp

lemma trade_quad:
  "food_after (trade_food quad 100 20) ''A'' = Some 95"
  "food_after (trade_food quad 100 20) ''B'' = Some 100"
  "food_after (trade_food quad 100 20) ''C'' = Some 100"
  "food_after (trade_food quad 100 20) ''D'' = Some 110"
  by (simp_all add: min3_def food_def food_after_def quad_def city_def trade_food_def
      zero_flows_def trade_edge_def flow_add_def add_food_def)

section \<open>Production\<close>

text \<open>
  Claim C3. After one call of \<open>produce_food\<close>, whatever the production amount (in
  particular a non-negative one), the call returns, every settlement that is not
  blocked holds exactly \<open>production_amount\<close> more food than before, and every blocked
  settlement holds what it held.
\<close>

theorem produce_food_effect:
  assumes "wf_graph G"
  shows "\<exists>G'. produce_food G production_amount = Inr G' \<and>
           (\<forall>c \<in> set (names G). \<forall>s f.
              node G c = Some s \<and> resources s ''food'' = Some f \<longrightarrow>
                (\<not> blocked s \<longrightarrow> food G' c = Some (f + production_amount)) \<and>
                (blocked s \<longrightarrow> food G' c = Some f))"
  using assms by (simp add: produce_food_char food_produced)

theorem produce_food_effect_witness:
  "wf_graph siege \<and>
   food siege ''A'' = Some 130 \<and> food siege ''B'' = Some 80 \<and>
   food_after (produce_food siege 10) ''A'' = Some 140 \<and>
   food_after (produce_food siege 10) ''B'' = Some 80"
proof -
  from produce_food_effect[OF wf_siege, of 10] obtain G' where
    G': "produce_food siege 10 = Inr G'" and
    eff: "\<forall>c \<in> set (names siege). \<forall>s f.
              node siege c = Some s \<and> resources s ''food'' = Some f \<longrightarrow>
                (\<not> blocked s \<longrightarrow> food G' c = Some (f + 10)) \<and>
                (blocked s \<longrightarrow> food G' c = Some f)"
    by blast
  have a: "food G' ''A'' = Some (130 + 10)"
    using eff[rule_format, of "''A''" "city False 130" 130] by (simp add: siege_def city_def)
  have b: "food G' ''B'' = Some 80"
    using eff[rule_format, of "''B''" "city True 80" 80] by (simp add: siege_def city_def)
  have "food siege ''A'' = Some 130" "food siege ''B'' = Some 80"
    by (simp_all add: food_def siege_def city_def)
  with wf_siege a b G' show ?thesis by (simp add: food_after_def)
qed

section \<open>Trade over one link\<close>

text \<open>
  Claim C7. A at 130 and B at 80, linked and unblocked, threshold 100 and cap 20:
  the flow is \<open>min(30, 20, 20) = 20\<close> and one call of \<open>trade_food\<close> leaves A at 110
  and B at 100.
\<close>

theorem trade_food_scenario:
  "min3 (130 - 100) (100 - 80) 20 = 20 \<and>
   food two_cities ''A'' = Some 130 \<and> food two_cities ''B'' = Some 80 \<and>
   food_after (trade_food two_cities 100 20) ''A'' = Some 110 \<and>
   food_after (trade_food two_cities 100 20) ''B'' = Some 100"
  by (simp add: min3_def food_def food_after_def two_cities_def city_def trade_food_def
      zero_flows_def trade_edge_def flow_add_def add_food_def)

text \<open>
  Claim C6. On a link between two unblocked settlements, when the food of either one
  equals \<open>trade_threshold\<close> exactly, the loop body of \<open>trade_food\<close> leaves the net-flow
  dict as it found it: no flow on that link.
\<close>

theorem threshold_no_flow:
  assumes "nd cityA = Some sA" "nd cityB = Some sB" "\<not> blocked sA" "\<not> blocked sB"
    and "resources sA ''food'' = Some foodA" "resources sB ''food'' = Some foodB"
    and "foodA = trade_threshold \<or> foodB = trade_threshold"
  shows "trade_edge nd trade_threshold max_trade_per_edge (cityA, cityB, l) food_flows
       = Inr food_flows"
  using assms by (auto simp: trade_edge_def)

theorem threshold_no_flow_witness:
  "trade_edge (node even_pair) 100 20 (''A'', ''B'', road) (zero_flows (names even_pair))
     = Inr (zero_flows (names even_pair))
   \<and> food_after (trade_food even_pair 100 20) ''A'' = Some 130
   \<and> food_after (trade_food even_pair 100 20) ''B'' = Some 100"
proof -
  have "trade_edge (node even_pair) 100 20 (''A'', ''B'', road) (zero_flows (names even_pair))
     = Inr (zero_flows (names even_pair))"
    by (rule threshold_no_flow[where sA = "city False 130" and sB = "city False 100"
          and foodA = 130 and foodB = 100])
       (simp_all add: even_pair_def city_def)
  then show ?thesis
    by (simp add: food_after_def food_def trade_food_def even_pair_def city_def add_food_def
        zero_flows_def)
qed

section \<open>Blocked settlements\<close>

text \<open>
  Claim C8. When both endpoints of every trade link are blocked, one call of
  \<open>trade_food\<close> returns the graph it was given: the food of every settlement and
  everything else in the graph is unchanged.
\<close>

theorem trade_food_all_blocked_noop:
  assumes "wf_graph G"
    and "\<forall>(a, b, l) \<in> set (edges G). is_blocked G a \<and> is_blocked G b"
  shows "trade_food G trade_threshold max_trade_per_edge = Inr G"
proof -
  have "edge_delta (node G) trade_threshold max_trade_per_edge e c = 0"
    if "e \<in> set (edges G)" for e c
  proof -
    obtain a b l where e: "e = (a, b, l)" by (cases e)
    with that assms(2) have "is_blocked G a" by auto
    then have "link_flow (node G) trade_threshold max_trade_per_edge a b = 0"
      by (auto simp: is_blocked_def link_flow_blocked split: option.splits)
    then show ?thesis by (auto simp: e edge_delta_def)
  qed
  then have "\<forall>c \<in> set (names G).
      net_flow (node G) trade_threshold max_trade_per_edge (edges G) c = 0"
    by (simp add: net_flow_zero)
  then have "traded trade_threshold max_trade_per_edge G = node G"
    by (rule traded_no_flow[OF assms(1)])
  then show ?thesis by (simp add: trade_food_char[OF assms(1)])
qed

theorem trade_food_all_blocked_noop_witness:
  "wf_graph lockdown \<and> is_blocked lockdown ''A'' \<and> is_blocked lockdown ''B'' \<and>
   trade_food lockdown 100 20 = Inr lockdown"
proof -
  have bl: "is_blocked lockdown ''A''" "is_blocked lockdown ''B''"
    by (simp_all add: is_blocked_def lockdown_def city_def)
  have "\<forall>(a, b, l) \<in> set (edges lockdown). is_blocked lockdown a \<and> is_blocked lockdown b"
    using bl by (simp add: lockdown_def)
  from trade_food_all_blocked_noop[OF wf_lockdown this, of 100 20] wf_lockdown bl
  show ?thesis by simp
qed

lemma edge_delta_blocked:
  assumes "nd c = Some s" "blocked s"
  shows "edge_delta nd T cap e c = 0"
proof -
  obtain a b l where e: "e = (a, b, l)" by (cases e)
  show ?thesis
    using assms by (auto simp: e edge_delta_def link_flow_blocked)
qed

lemma produced_blocked:
  "node G c = Some s \<Longrightarrow> blocked s \<Longrightarrow> produced amt G c = Some s"
  by (simp add: produced_def)

lemma traded_blocked:
  assumes "wf_graph G" "node G c = Some s" "blocked s"
  shows "traded T cap G c = Some s"
proof (cases "c \<in> set (names G)")
  case True
  from wf_graph_node[OF assms(1) True] assms(2) have "resources s ''food'' \<noteq> None" by auto
  moreover have "net_flow (node G) T cap (edges G) c = 0"
    using assms(2,3) by (intro net_flow_zero ballI) (rule edge_delta_blocked)
  ultimately show ?thesis using True assms(2) by (simp add: traded_def bump_zero)
next
  case False
  with assms(2) show ?thesis by (simp add: traded_def)
qed

lemma run_steps_blocked:
  assumes "wf_graph G" "node G c = Some s" "blocked s"
  shows "\<exists>G'. run_steps n G = Inr G' \<and> node G' c = Some s"
  using assms
proof (induction n arbitrary: G)
  case 0
  then show ?case by simp
next
  case (Suc n)
  let ?G1 = "G\<lparr>node := produced 10 G\<rparr>"
  let ?G2 = "G\<lparr>node := traded 100 20 ?G1\<rparr>"
  have "node ?G1 c = Some s" using Suc.prems by (simp add: produced_blocked)
  then have "traded 100 20 ?G1 c = Some s"
    by (rule traded_blocked[OF wf_produced[OF Suc.prems(1)]]) (rule Suc.prems(3))
  then have "node ?G2 c = Some s" by simp
  from Suc.IH[OF wf_economy_step[OF Suc.prems(1)] this Suc.prems(3)]
  show ?case by (simp add: economy_step_char[OF Suc.prems(1)])
qed

lemma trade_edge_blocked:
  assumes "wf_graph G" "e \<in> set (edges G)" "touches e c" "node G c = Some s" "blocked s"
  shows "trade_edge (node G) T cap e ff = Inr ff"
proof -
  obtain a b l where e: "e = (a, b, l)" by (cases e)
  with assms(1,2) have "a \<in> set (names G)" by (auto simp: wf_graph_def list_all_iff)
  from wf_graph_node[OF assms(1) this] obtain sA where "node G a = Some sA" by blast
  with assms(3-5) show ?thesis
    by (auto simp: e touches_def trade_edge_def)
qed

text \<open>
  Claim C5. A blocked settlement is left exactly as it is (its food included) by
  \<open>produce_food\<close>, by \<open>trade_food\<close> and by a whole run of \<open>simulate_economy\<close>, whatever
  the number of steps: nothing in a run changes the flag, so it stays blocked
  throughout. On every link that touches it the loop body of \<open>trade_food\<close> returns
  the net-flow dict unchanged: no flow crosses its links. All three calls return.
\<close>

theorem blocked_settlement_frozen:
  assumes "wf_graph G" "node G c = Some s" "blocked s"
  shows "(\<exists>G'. produce_food G production_amount = Inr G' \<and> node G' c = Some s) \<and>
         (\<exists>G'. trade_food G trade_threshold max_trade_per_edge = Inr G' \<and> node G' c = Some s) \<and>
         (\<exists>G'. simulate_economy G steps = Inr G' \<and> node G' c = Some s) \<and>
         (\<forall>e \<in> set (edges G). touches e c \<longrightarrow>
            (\<forall>food_flows. trade_edge (node G) trade_threshold max_trade_per_edge e food_flows
                             = Inr food_flows))"
proof (intro conjI)
  show "\<exists>G'. produce_food G production_amount = Inr G' \<and> node G' c = Some s"
    using assms by (simp add: produce_food_char produced_blocked)
  show "\<exists>G'. trade_food G trade_threshold max_trade_per_edge = Inr G' \<and> node G' c = Some s"
    using assms by (simp add: trade_food_char traded_blocked)
  show "\<exists>G'. simulate_economy G steps = Inr G' \<and> node G' c = Some s"
    unfolding simulate_economy_def by (rule run_steps_blocked[OF assms])
  show "\<forall>e \<in> set (edges G). touches e c \<longrightarrow>
            (\<forall>food_flows. trade_edge (node G) trade_threshold max_trade_per_edge e food_flows
                             = Inr food_flows)"
    using assms by (blast intro: trade_edge_blocked)
qed

theorem blocked_settlement_frozen_witness:
  "wf_graph siege \<and> is_blocked siege ''B'' \<and> food siege ''B'' = Some 80 \<and>
   food_after (simulate_economy siege 3) ''B'' = Some 80 \<and>
   food_after (simulate_economy siege 3) ''A'' = Some 160 \<and>
   trade_edge (node siege) 100 20 (''A'', ''B'', road) (zero_flows (names siege))
     = Inr (zero_flows (names siege))"
proof -
  have nd: "node siege ''B'' = Some (city True 80)" "blocked (city True 80)"
    by (simp_all add: siege_def city_def)
  note fz = blocked_settlement_frozen[OF wf_siege nd, of 10 100 20 3]
  from fz obtain G' where
    G': "simulate_economy siege 3 = Inr G'" "node G' ''B'' = Some (city True 80)" by blast
  have b: "food_after (simulate_economy siege 3) ''B'' = Some 80"
    using G' by (simp add: food_after_def food_def city_def)
  have e: "trade_edge (node siege) 100 20 (''A'', ''B'', road) (zero_flows (names siege))
     = Inr (zero_flows (names siege))"
    using fz by (simp add: siege_def touches_def)
  have a: "food_after (simulate_economy siege 3) ''A'' = Some 160"
    by (simp add: simulate_economy_def numeral_3_eq_3 economy_step_def produce_food_def
        trade_food_def siege_def city_def add_food_def trade_edge_def zero_flows_def
        food_after_def food_def)
  have "is_blocked siege ''B''" "food siege ''B'' = Some 80"
    by (simp_all add: is_blocked_def food_def siege_def city_def)
  with wf_siege a b e show ?thesis by simp
qed

section \<open>Simultaneous trade\<close>

lemma net_flow_mset:
  assumes "mset es = mset es'"
  shows "net_flow nd T cap es c = net_flow nd T cap es' c"
proof -
  have "mset (map (\<lambda>e. edge_delta nd T cap e c) es)
      = mset (map (\<lambda>e. edge_delta nd T cap e c) es')"
    using assms by simp
  then have "sum_mset (mset (map (\<lambda>e. edge_delta nd T cap e c) es))
           = sum_mset (mset (map (\<lambda>e. edge_delta nd T cap e c) es'))"
    by (rule arg_cong)
  then show ?thesis
    unfolding net_flow_def sum_mset_sum_list .
qed

lemma wf_graph_edges_mset:
  assumes "wf_graph G" "mset es = mset (edges G)"
  shows "wf_graph (G\<lparr>edges := es\<rparr>)"
proof -
  from assms(2) have "set es = set (edges G)" by (rule mset_eq_setD)
  with assms(1) show ?thesis by (simp add: wf_graph_def list_all_iff)
qed

text \<open>
  Claim C2. Visiting the trade links in any other order gives the same node dict,
  hence the same food for every settlement: \<open>trade_food\<close> returns under both orders,
  and the food of a settlement after the call is its food at the start of the call
  plus its net flow, the sum over all links of flows that are each computed from the
  stocks at the start of the call.
\<close>

theorem trade_food_order_independent:
  assumes "wf_graph G" "mset es = mset (edges G)"
  shows "\<exists>G1 G2. trade_food G trade_threshold max_trade_per_edge = Inr G1 \<and>
           trade_food (G\<lparr>edges := es\<rparr>) trade_threshold max_trade_per_edge = Inr G2 \<and>
           node G2 = node G1 \<and>
           (\<forall>c \<in> set (names G). \<forall>f. food G c = Some f \<longrightarrow>
              food G1 c
                = Some (f + net_flow (node G) trade_threshold max_trade_per_edge (edges G) c))"
proof -
  let ?T = trade_threshold and ?cap = max_trade_per_edge
  have wf': "wf_graph (G\<lparr>edges := es\<rparr>)" by (rule wf_graph_edges_mset[OF assms])
  have "traded ?T ?cap (G\<lparr>edges := es\<rparr>) = traded ?T ?cap G"
    by (auto simp: traded_def fun_eq_iff net_flow_mset[OF assms(2)])
  moreover have "food (G\<lparr>node := traded ?T ?cap G\<rparr>) c
       = Some (f + net_flow (node G) ?T ?cap (edges G) c)"
    if "c \<in> set (names G)" "food G c = Some f" for c f
  proof -
    from wf_graph_node[OF assms(1) that(1)] obtain s f'
      where s: "node G c = Some s" "resources s ''food'' = Some f'" by blast
    with that(2) have "f' = f" by (simp add: food_def)
    with s that(1) show ?thesis by (simp add: food_traded)
  qed
  ultimately show ?thesis
    by (simp add: trade_food_char[OF assms(1)] trade_food_char[OF wf'])
qed

theorem trade_food_order_independent_witness:
  "wf_graph quad \<and> mset quad_reordered = mset (edges quad) \<and>
   quad_reordered \<noteq> edges quad \<and>
   food_after (trade_food quad 100 20) ''A'' = Some 95 \<and>
   food_after (trade_food (quad\<lparr>edges := quad_reordered\<rparr>) 100 20) ''A'' = Some 95"
proof -
  have m: "mset quad_reordered = mset (edges quad)"
    by (simp add: quad_reordered_def quad_def)
  have ne: "quad_reordered \<noteq> edges quad"
    by (simp add: quad_reordered_def quad_def)
  from trade_food_order_independent[OF wf_quad m, of 100 20] obtain G1 G2 where
    g: "trade_food quad 100 20 = Inr G1"
       "trade_food (quad\<lparr>edges := quad_reordered\<rparr>) 100 20 = Inr G2"
       "node G2 = node G1"
    by blast
  from g(1) trade_quad(1) have "food G1 ''A'' = Some 95" by (simp add: food_after_def)
  with g have "food_after (trade_food quad 100 20) ''A'' = Some 95"
    "food_after (trade_food (quad\<lparr>edges := quad_reordered\<rparr>) 100 20) ''A'' = Some 95"
    by (simp_all add: food_after_def food_def)
  with wf_quad m ne show ?thesis by simp
qed

lemma sum_list_indicator_out:
  "a \<notin> set ns \<Longrightarrow> (\<Sum>c\<leftarrow>ns. if c = a then (x::int) else 0) = 0"
  by (induction ns) auto

lemma sum_list_indicator:
  assumes "distinct ns" "a \<in> set ns"
  shows "(\<Sum>c\<leftarrow>ns. if c = a then (x::int) else 0) = x"
  using assms by (induction ns) (auto simp: sum_list_indicator_out)

lemma edge_delta_sum:
  assumes "distinct ns" "a \<in> set ns" "b \<in> set ns"
  shows "(\<Sum>c\<leftarrow>ns. edge_delta nd T cap (a, b, l) c) = 0"
proof -
  have "(\<Sum>c\<leftarrow>ns. edge_delta nd T cap (a, b, l) c)
      = (\<Sum>c\<leftarrow>ns. if c = b then link_flow nd T cap a b else 0)
        - (\<Sum>c\<leftarrow>ns. if c = a then link_flow nd T cap a b else 0)"
    by (simp add: edge_delta_def sum_list_subtractf)
  with assms show ?thesis by (simp add: sum_list_indicator)
qed

lemma net_flow_sum:
  assumes "distinct ns" "list_all (\<lambda>(a, b, l). a \<in> set ns \<and> b \<in> set ns) es"
  shows "(\<Sum>c\<leftarrow>ns. net_flow nd T cap es c) = 0"
  using assms(2)
proof (induction es)
  case Nil
  then show ?case by (simp add: net_flow_def)
next
  case (Cons e es)
  obtain a b l where e: "e = (a, b, l)" by (cases e)
  have "(\<Sum>c\<leftarrow>ns. net_flow nd T cap (e # es) c)
      = (\<Sum>c\<leftarrow>ns. edge_delta nd T cap e c) + (\<Sum>c\<leftarrow>ns. net_flow nd T cap es c)"
    by (simp add: net_flow_def sum_list_addf)
  with Cons e assms(1) show ?case by (simp add: edge_delta_sum)
qed

lemma total_food_traded:
  assumes "wf_graph G"
  shows "total_food (G\<lparr>node := traded T cap G\<rparr>)
       = total_food G + (\<Sum>c\<leftarrow>names G. net_flow (node G) T cap (edges G) c)"
proof -
  let ?G' = "G\<lparr>node := traded T cap G\<rparr>"
  let ?old = "\<lambda>c. case food G c of None \<Rightarrow> 0 | Some f \<Rightarrow> f"
  let ?new = "\<lambda>c. case food ?G' c of None \<Rightarrow> 0 | Some f \<Rightarrow> f"
  let ?net = "net_flow (node G) T cap (edges G)"
  have pt: "?new c = ?old c + ?net c" if "c \<in> set (names G)" for c
  proof -
    from wf_graph_node[OF assms that] obtain s f
      where s: "node G c = Some s" "resources s ''food'' = Some f" by blast
    then show ?thesis using that by (simp add: food_traded) (simp add: food_def)
  qed
  have "total_food ?G' = sum_list (map ?new (names G))"
    by (simp add: total_food_def)
  also have "\<dots> = sum_list (map (\<lambda>c. ?old c + ?net c) (names G))"
    by (intro arg_cong[where f = sum_list] map_cong refl) (rule pt)
  also have "\<dots> = total_food G + sum_list (map ?net (names G))"
    unfolding total_food_def by (rule sum_list_addf)
  finally show ?thesis .
qed

text \<open>
  Claim C9. One call of \<open>trade_food\<close> returns and leaves the food summed over all
  settlements unchanged, whichever settlements are blocked and wherever the stocks
  sit: what a link takes from one settlement it gives to the other, so the net
  flows sum to zero.
\<close>

theorem trade_food_conserves_total:
  assumes "wf_graph G"
  shows "\<exists>G'. trade_food G trade_threshold max_trade_per_edge = Inr G' \<and>
           total_food G' = total_food G"
proof -
  from assms have "distinct (names G)"
    "list_all (\<lambda>(a, b, l). a \<in> set (names G) \<and> b \<in> set (names G)) (edges G)"
    by (simp_all add: wf_graph_def)
  then have "(\<Sum>c\<leftarrow>names G.
      net_flow (node G) trade_threshold max_trade_per_edge (edges G) c) = 0"
    by (rule net_flow_sum)
  then show ?thesis
    by (simp add: trade_food_char[OF assms] total_food_traded[OF assms])
qed

theorem trade_food_conserves_total_witness:
  "wf_graph quad \<and> total_food quad = 405 \<and>
   (\<exists>G'. trade_food quad 100 20 = Inr G' \<and> total_food G' = 405 \<and> food G' ''A'' = Some 95)"
proof -
  have t: "total_food quad = 405"
    by (simp add: total_food_def food_def quad_def city_def)
  from trade_food_conserves_total[OF wf_quad, of 100 20] obtain G' where
    G': "trade_food quad 100 20 = Inr G'" "total_food G' = total_food quad" by blast
  with trade_quad(1) have "food G' ''A'' = Some 95" by (simp add: food_after_def)
  with G' t wf_quad show ?thesis by simp
qed

lemma pair_delta_zero:
  assumes "joins e a b \<or> edge_flow G T cap e = 0 \<or> (\<not> touches e a \<and> \<not> touches e b)"
  shows "edge_delta (node G) T cap e a + edge_delta (node G) T cap e b = 0"
proof -
  obtain x y l where e: "e = (x, y, l)" by (cases e)
  from assms show ?thesis
    unfolding e joins_def edge_flow_def touches_def edge_delta_def
    by (auto simp: link_flow_self)
qed

lemma pair_net_flow_zero:
  assumes "list_all (\<lambda>e. joins e a b \<or> edge_flow G T cap e = 0
                  \<or> (\<not> touches e a \<and> \<not> touches e b)) es"
  shows "net_flow (node G) T cap es a + net_flow (node G) T cap es b = 0"
  using assms
proof (induction es)
  case Nil
  then show ?case by (simp add: net_flow_def)
next
  case (Cons e es)
  then have "edge_delta (node G) T cap e a + edge_delta (node G) T cap e b = 0"
    and "net_flow (node G) T cap es a + net_flow (node G) T cap es b = 0"
    by (simp_all add: pair_delta_zero)
  then show ?case by (simp add: net_flow_def)
qed

text \<open>
  Claim C4, as stated, fails. In \<open>quad\<close> all settlements are unblocked and within
  the cap of the threshold. The link A-B has one end above and one end below the
  threshold, the link A-D has both ends above it; after one call of \<open>trade_food\<close>
  the two ends of A-B hold 195 instead of 205 and the two ends of A-D hold 205
  instead of 225, because A also gives food over its other links.
\<close>

theorem trade_food_pair_counterexample:
  "wf_graph quad \<and>
   \<not> is_blocked quad ''A'' \<and> \<not> is_blocked quad ''B'' \<and> \<not> is_blocked quad ''D'' \<and>
   food quad ''A'' = Some 115 \<and> food quad ''B'' = Some 90 \<and> food quad ''D'' = Some 110 \<and>
   pair_food (Inr quad) ''A'' ''B'' = Some 205 \<and>
   pair_food (trade_food quad 100 20) ''A'' ''B'' = Some 195 \<and>
   pair_food (Inr quad) ''A'' ''D'' = Some 225 \<and>
   pair_food (trade_food quad 100 20) ''A'' ''D'' = Some 205"
proof -
  have "food quad ''A'' = Some 115" "food quad ''B'' = Some 90" "food quad ''D'' = Some 110"
    "\<not> is_blocked quad ''A''" "\<not> is_blocked quad ''B''" "\<not> is_blocked quad ''D''"
    by (simp_all add: food_def is_blocked_def quad_def city_def)
  with wf_quad trade_quad show ?thesis by (simp add: pair_food_def food_after_def)
qed

text \<open>
  Claim C4, amended. For a trade link between \<open>a\<close> and \<open>b\<close>, when no other link that
  touches \<open>a\<close> or \<open>b\<close> carries a flow (in particular when the link is the only one at
  both ends), one call of \<open>trade_food\<close> returns and the two ends hold together what
  they held before, blocked or not and wherever their stocks sit.
\<close>

theorem trade_food_conserves_pair:
  assumes "wf_graph G" "(a, b, l) \<in> set (edges G)"
    and "only_flow_between G trade_threshold max_trade_per_edge a b"
  shows "\<exists>t. pair_food (Inr G) a b = Some t \<and>
           pair_food (trade_food G trade_threshold max_trade_per_edge) a b = Some t"
proof -
  let ?T = trade_threshold and ?cap = max_trade_per_edge
  from assms(1,2) have ab: "a \<in> set (names G)" "b \<in> set (names G)"
    by (auto simp: wf_graph_def list_all_iff)
  from wf_graph_node[OF assms(1) ab(1)]
  obtain sa fa where sa: "node G a = Some sa" "resources sa ''food'' = Some fa" by blast
  from wf_graph_node[OF assms(1) ab(2)]
  obtain sb fb where sb: "node G b = Some sb" "resources sb ''food'' = Some fb" by blast
  have z: "net_flow (node G) ?T ?cap (edges G) a + net_flow (node G) ?T ?cap (edges G) b = 0"
    using assms(3) unfolding only_flow_between_def by (rule pair_net_flow_zero)
  have "pair_food (Inr G) a b = Some (fa + fb)"
    using sa sb by (simp add: pair_food_def food_after_def food_def)
  moreover have "pair_food (trade_food G ?T ?cap) a b = Some (fa + fb)"
    using z
    by (simp add: pair_food_def food_after_def trade_food_char[OF assms(1)]
        food_traded[OF ab(1) sa] food_traded[OF ab(2) sb])
  ultimately show ?thesis by simp
qed

theorem trade_food_conserves_pair_witness:
  "wf_graph two_cities \<and> only_flow_between two_cities 100 20 ''A'' ''B'' \<and>
   pair_food (Inr two_cities) ''A'' ''B'' = Some 210 \<and>
   pair_food (trade_food two_cities 100 20) ''A'' ''B'' = Some 210 \<and>
   food_after (trade_food two_cities 100 20) ''A'' = Some 110"
proof -
  have e: "(''A'', ''B'', road) \<in> set (edges two_cities)"
    by (simp add: two_cities_def)
  have o: "only_flow_between two_cities 100 20 ''A'' ''B''"
    by (simp add: only_flow_between_def two_cities_def joins_def)
  have f: "pair_food (Inr two_cities) ''A'' ''B'' = Some 210"
    by (simp add: pair_food_def food_after_def food_def two_cities_def city_def)
  have a: "food_after (trade_food two_cities 100 20) ''A'' = Some 110"
    by (simp add: min3_def food_def food_after_def two_cities_def city_def trade_food_def
      zero_flows_def trade_edge_def flow_add_def add_food_def)
  from trade_food_conserves_pair[OF wf_two_cities e o] wf_two_cities o f a
  show ?thesis by simp
qed

section \<open>What the calls leave alone\<close>

lemma same_but_food_refl: "same_but_food s s"
  by (simp add: same_but_food_def)

lemma same_but_food_bump: "same_but_food s (bump x s)"
  by (simp add: same_but_food_def bump_def add_food_def split: option.splits)

lemma only_food_produced: "only_food_changed G (G\<lparr>node := produced amt G\<rparr>)"
  by (auto simp: only_food_changed_def produced_def option.rel_map same_but_food_refl
      same_but_food_bump intro!: option.rel_refl)

lemma only_food_traded: "only_food_changed G (G\<lparr>node := traded T cap G\<rparr>)"
  by (auto simp: only_food_changed_def traded_def option.rel_map same_but_food_refl
      same_but_food_bump intro!: option.rel_refl)

text \<open>
  Claim C10. \<open>produce_food\<close> and \<open>trade_food\<close> return a graph with the same node
  names and the same links, with their distance and capacity; every settlement keeps
  its position, its country, its blocked flag and every resource other than food.
\<close>

theorem only_food_mutated:
  assumes "wf_graph G"
  shows "\<exists>G1 G2. produce_food G production_amount = Inr G1 \<and>
           trade_food G trade_threshold max_trade_per_edge = Inr G2 \<and>
           only_food_changed G G1 \<and> only_food_changed G G2"
  using assms
  by (simp add: produce_food_char trade_food_char only_food_produced only_food_traded)

theorem only_food_mutated_witness:
  "wf_graph two_cities \<and>
   (\<exists>G1 G2. produce_food two_cities 10 = Inr G1 \<and> trade_food two_cities 100 20 = Inr G2 \<and>
      only_food_changed two_cities G1 \<and> only_food_changed two_cities G2 \<and>
      food G1 ''A'' = Some 140 \<and> food G2 ''A'' = Some 110 \<and>
      edges G1 = [(''A'', ''B'', road)] \<and> edges G2 = [(''A'', ''B'', road)])"
proof -
  from only_food_mutated[OF wf_two_cities, of 10 100 20] obtain G1 G2 where
    g: "produce_food two_cities 10 = Inr G1" "trade_food two_cities 100 20 = Inr G2"
       "only_food_changed two_cities G1" "only_food_changed two_cities G2"
    by blast
  have "food_after (produce_food two_cities 10) ''A'' = Some 140"
       "food_after (trade_food two_cities 100 20) ''A'' = Some 110"
    by (simp_all add: min3_def food_def food_after_def two_cities_def city_def trade_food_def
      produce_food_def zero_flows_def trade_edge_def flow_add_def add_food_def)
  with g have f: "food G1 ''A'' = Some 140" "food G2 ''A'' = Some 110"
    by (simp_all add: food_after_def)
  from g(3,4) have "edges G1 = [(''A'', ''B'', road)]" "edges G2 = [(''A'', ''B'', road)]"
    by (simp_all add: only_food_changed_def two_cities_def)
  with g f wf_two_cities show ?thesis by blast
qed

section \<open>Food stocks below zero\<close>

text \<open>
  Claim C1. The claim is that no food stock is negative after a step when none was
  before it. The docstring of \<open>trade_food\<close> says that a city shares its excess over
  the threshold, and the body bounds every flow by the donor's surplus; but the
  surplus is read afresh from the start-of-call stock on every link, so a donor with
  several links gives it away several times. In \<open>star\<close> no stock is negative; the
  hub holds 110 and has seven links to settlements that hold nothing. With the
  notebook's parameters (produce 10, threshold 100, cap 20) production brings the
  hub to 120, an excess of 20, and trade then sends 20 over each of the seven links:
  the hub ends the step at -20. One turn of \<open>simulate_economy\<close> does the same.
\<close>

theorem step_food_negative_on_star:
  "wf_graph star \<and> all_food_nonneg star \<and> degree star ''H'' = 7 \<and>
   food star ''H'' = Some 110 \<and>
   food_after (produce_food star 10) ''H'' = Some 120 \<and>
   food_after (economy_step star 10 100 20) ''H'' = Some (- 20) \<and>
   food_after (simulate_economy star 1) ''H'' = Some (- 20)"
  by (simp add: wf_graph_def all_food_nonneg_def degree_def touches_def has_food_def
      food_def food_after_def simulate_economy_def economy_step_def produce_food_def
      trade_food_def star_def city_def add_food_def trade_edge_def zero_flows_def
      flow_add_def min3_def)

end
